theory Spec2Isabelle
  imports Main "HOL-Library.Word"
begin

unbundle bit_operations_syntax

section \<open>pywwb: windows without borders\<close>

text \<open>
  The program (\<^verbatim>\<open>src/pywwb.py\<close>) is a thin layer over three libraries: Python's
  \<^verbatim>\<open>re\<close>, and pywin32's \<^verbatim>\<open>win32gui\<close> and \<^verbatim>\<open>win32api\<close>. Its own functions are
  \<^verbatim>\<open>get_windows\<close>, \<^verbatim>\<open>get_monitor\<close>, \<^verbatim>\<open>strip_decorations\<close>, \<^verbatim>\<open>make_fullscreen\<close> and
  \<^verbatim>\<open>main\<close>; they are translated line by line in the last part of the definitions.
  Everything before that is the environment they run in: the desktop as a value, and the
  library calls as functions on it. Of \<^verbatim>\<open>re\<close> the program uses the function
  \<^verbatim>\<open>re.compile\<close> and the method \<^verbatim>\<open>search\<close> of the objects it returns: a
  compiled pattern is an object that carries its method, and \<^verbatim>\<open>re.compile\<close> is a
  parameter of \<^verbatim>\<open>main\<close>, so that what is proved of the program holds for every
  regular expression.
\<close>

subsection \<open>The desktop\<close>

type_synonym hwnd = int
type_synonym hmonitor = int
type_synonym hmenu = int

text \<open>A RECT as pywin32 returns it: the tuple (left, top, right, bottom).\<close>

type_synonym rect = "int \<times> int \<times> int \<times> int"

text \<open>
  A top-level window: its title, its 32-bit style (GWL_STYLE), its bounding rectangle in
  screen coordinates, its menu, and whether it belongs to a process of higher integrity
  than the caller (the window manager then rejects every change the caller asks for).
\<close>

record window =
  window_text :: string
  style :: "32 word"
  bounds :: rect
  menu :: "hmenu option"
  elevated :: bool

text \<open>The dictionary \<^verbatim>\<open>win32api.GetMonitorInfo\<close> returns, with its four keys.\<close>

record monitor_info =
  Monitor :: rect
  Work :: rect
  Flags :: int
  Device :: string

text \<open>Every library call the program makes, as the window manager receives it.\<close>

datatype call =
    C_EnumWindows
  | C_IsWindowVisible hwnd
  | C_GetWindowText hwnd
  | C_SetWindowLong hwnd int "32 word"
  | C_MonitorFromWindow hwnd "32 word"
  | C_GetMonitorInfo hmonitor
  | C_SetWindowPos hwnd hwnd int int int int "32 word"
  | C_SetMenu hwnd "hmenu option"

text \<open>
  The state of the host: the top-level windows in the order \<^verbatim>\<open>EnumWindows\<close> reports
  them, the display monitors, whether the enumeration facility is broken, the calls made
  so far (oldest first) and what \<^verbatim>\<open>print\<close> has written (one entry for each list
  printed).
\<close>

record world =
  toplevel :: "(hwnd \<times> window) list"
  displays :: "(hmonitor \<times> monitor_info) list"
  enum_fault :: bool
  calls :: "call list"
  stdout :: "hwnd list list"

text \<open>
  What the program can raise: \<^verbatim>\<open>StopIteration\<close> (its own early exit),
  \<^verbatim>\<open>re.error\<close>, and \<^verbatim>\<open>pywintypes.error\<close> with the Win32 error code and the name
  of the failing function. \<open>Unsupported_pattern\<close> is not a Python exception: it is
  what the model of \<^verbatim>\<open>re.compile\<close> below answers on a regular expression outside
  its fragment.
\<close>

datatype exn =
    StopIteration
  | re_error
  | pywintypes_error int string
  | Unsupported_pattern

subsection \<open>Constants of win32con\<close>

definition WS_VISIBLE :: "32 word" where "WS_VISIBLE = 0x10000000"
definition WS_POPUP :: "32 word" where "WS_POPUP = 0x80000000"
definition WS_CLIPCHILDREN :: "32 word" where "WS_CLIPCHILDREN = 0x02000000"
definition GWL_STYLE :: int where "GWL_STYLE = - 16"
definition HWND_TOP :: hwnd where "HWND_TOP = 0"
definition SWP_NOSIZE :: "32 word" where "SWP_NOSIZE = 0x0001"
definition SWP_NOMOVE :: "32 word" where "SWP_NOMOVE = 0x0002"
definition SWP_FRAMECHANGED :: "32 word" where "SWP_FRAMECHANGED = 0x0020"
definition SWP_SHOWWINDOW :: "32 word" where "SWP_SHOWWINDOW = 0x0040"
definition MONITOR_DEFAULTTONULL :: "32 word" where "MONITOR_DEFAULTTONULL = 0"
definition MONITOR_DEFAULTTOPRIMARY :: "32 word" where "MONITOR_DEFAULTTOPRIMARY = 1"
definition MONITOR_DEFAULTTONEAREST :: "32 word" where "MONITOR_DEFAULTTONEAREST = 2"
definition MONITORINFOF_PRIMARY :: int where "MONITORINFOF_PRIMARY = 1"
definition ERROR_ACCESS_DENIED :: int where "ERROR_ACCESS_DENIED = 5"
definition ERROR_INVALID_WINDOW_HANDLE :: int where "ERROR_INVALID_WINDOW_HANDLE = 1400"
definition ERROR_INVALID_MONITOR_HANDLE :: int where "ERROR_INVALID_MONITOR_HANDLE = 1461"
definition ERROR_NOT_SUPPORTED :: int where "ERROR_NOT_SUPPORTED = 50"

subsection \<open>The window manager's calls\<close>

definition log_call :: "call \<Rightarrow> world \<Rightarrow> world" where
  "log_call c w = w\<lparr>calls := calls w @ [c]\<rparr>"

definition lookup_window :: "world \<Rightarrow> hwnd \<Rightarrow> window option" where
  "lookup_window w h = map_of (toplevel w) h"

fun update_window :: "hwnd \<Rightarrow> (window \<Rightarrow> window) \<Rightarrow> (hwnd \<times> window) list \<Rightarrow> (hwnd \<times> window) list" where
  "update_window h f [] = []"
| "update_window h f ((k, x) # ws) =
     (if k = h then (k, f x) # ws else (k, x) # update_window h f ws)"

text \<open>
  \<^verbatim>\<open>IsWindowVisible\<close>: for a top-level window, whether its style has the WS_VISIBLE
  bit; false for a handle that is no window. It never raises.
\<close>

definition IsWindowVisible :: "hwnd \<Rightarrow> world \<Rightarrow> bool \<times> world" where
  "IsWindowVisible h w =
     ((case lookup_window w h of
         None \<Rightarrow> False
       | Some x \<Rightarrow> style x AND WS_VISIBLE \<noteq> 0),
      log_call (C_IsWindowVisible h) w)"

text \<open>\<^verbatim>\<open>GetWindowText\<close>: the title; the empty string for a handle that is no window.\<close>

definition GetWindowText :: "hwnd \<Rightarrow> world \<Rightarrow> string \<times> world" where
  "GetWindowText h w =
     ((case lookup_window w h of None \<Rightarrow> [] | Some x \<Rightarrow> window_text x),
      log_call (C_GetWindowText h) w)"

text \<open>
  \<^verbatim>\<open>EnumWindows(callback, ctx)\<close>: calls the callback on each top-level window in turn.
  The callback has a state of its own (what its closure captures). An exception raised
  by the callback ends the enumeration and is raised again to the caller of
  \<^verbatim>\<open>EnumWindows\<close>; when the facility itself is broken, no window is visited and
  \<^verbatim>\<open>pywintypes.error\<close> is raised.
\<close>

fun enum_loop ::
  "(hwnd \<Rightarrow> 's \<times> world \<Rightarrow> (exn + unit) \<times> 's \<times> world) \<Rightarrow> hwnd list \<Rightarrow> 's \<times> world
     \<Rightarrow> (exn + unit) \<times> 's \<times> world" where
  "enum_loop cb [] st = (Inr (), st)"
| "enum_loop cb (h # hs) st =
     (case cb h st of
        (Inl e, st') \<Rightarrow> (Inl e, st')
      | (Inr _, st') \<Rightarrow> enum_loop cb hs st')"

definition EnumWindows ::
  "(hwnd \<Rightarrow> 's \<times> world \<Rightarrow> (exn + unit) \<times> 's \<times> world) \<Rightarrow> 's \<times> world
     \<Rightarrow> (exn + unit) \<times> 's \<times> world" where
  "EnumWindows cb st =
     (case st of (s, w) \<Rightarrow>
        let w1 = log_call C_EnumWindows w in
        if enum_fault w1 then (Inl (pywintypes_error ERROR_NOT_SUPPORTED ''EnumWindows''), s, w1)
        else enum_loop cb (map fst (toplevel w1)) (s, w1))"

text \<open>
  \<^verbatim>\<open>SetWindowLong(hwnd, index, value)\<close> returns the previous value and 0 on failure; it
  does not raise. Only the index GWL_STYLE is represented. A handle that is no window,
  and a window of an elevated process, are left as they are.
\<close>

definition SetWindowLong :: "hwnd \<Rightarrow> int \<Rightarrow> 32 word \<Rightarrow> world \<Rightarrow> 32 word \<times> world" where
  "SetWindowLong h index v w =
     (let w1 = log_call (C_SetWindowLong h index v) w in
      case lookup_window w1 h of
        None \<Rightarrow> (0, w1)
      | Some x \<Rightarrow>
          if elevated x \<or> index \<noteq> GWL_STYLE then (0, w1)
          else (style x, w1\<lparr>toplevel := update_window h (\<lambda>x. x\<lparr>style := v\<rparr>) (toplevel w1)\<rparr>))"

text \<open>
  \<^verbatim>\<open>MonitorFromWindow(hwnd, flags)\<close>: the monitor with the largest area of
  intersection with the window's rectangle. When the window meets no monitor the flags
  decide: the nearest monitor, the primary monitor, or NULL (0). A handle that is no
  window gives NULL. Among equals the first monitor of the list wins.
\<close>

fun inter_area :: "rect \<Rightarrow> rect \<Rightarrow> int" where
  "inter_area (l1, t1, r1, b1) (l2, t2, r2, b2) =
     max 0 (min r1 r2 - max l1 l2) * max 0 (min b1 b2 - max t1 t2)"

fun gap_sq :: "rect \<Rightarrow> rect \<Rightarrow> int" where
  "gap_sq (l1, t1, r1, b1) (l2, t2, r2, b2) =
     (let dx = max 0 (max l1 l2 - min r1 r2); dy = max 0 (max t1 t2 - min b1 b2)
      in dx * dx + dy * dy)"

fun best_by :: "('a \<Rightarrow> int) \<Rightarrow> 'a list \<Rightarrow> 'a option" where
  "best_by score [] = None"
| "best_by score (x # xs) =
     (case best_by score xs of
        None \<Rightarrow> Some x
      | Some y \<Rightarrow> if score y > score x then Some y else Some x)"

definition monitor_from_rect :: "rect \<Rightarrow> 32 word \<Rightarrow> (hmonitor \<times> monitor_info) list \<Rightarrow> hmonitor" where
  "monitor_from_rect r flags ms =
     (case best_by (\<lambda>(m, i). inter_area r (Monitor i))
             (filter (\<lambda>(m, i). inter_area r (Monitor i) > 0) ms) of
        Some (m, i) \<Rightarrow> m
      | None \<Rightarrow>
          if flags = MONITOR_DEFAULTTONEAREST then
            (case best_by (\<lambda>(m, i). - gap_sq r (Monitor i)) ms of
               Some (m, i) \<Rightarrow> m
             | None \<Rightarrow> 0)
          else if flags = MONITOR_DEFAULTTOPRIMARY then
            (case filter (\<lambda>(m, i). Flags i = MONITORINFOF_PRIMARY) ms of
               (m, i) # _ \<Rightarrow> m
             | [] \<Rightarrow> 0)
          else 0)"

definition MonitorFromWindow :: "hwnd \<Rightarrow> 32 word \<Rightarrow> world \<Rightarrow> hmonitor \<times> world" where
  "MonitorFromWindow h flags w =
     (let w1 = log_call (C_MonitorFromWindow h flags) w in
      case lookup_window w1 h of
        None \<Rightarrow> (0, w1)
      | Some x \<Rightarrow> (monitor_from_rect (bounds x) flags (displays w1), w1))"

text \<open>\<^verbatim>\<open>GetMonitorInfo(hMonitor)\<close>: the monitor's dictionary; raises for a handle that is no monitor.\<close>

definition GetMonitorInfo :: "hmonitor \<Rightarrow> world \<Rightarrow> (exn + monitor_info) \<times> world" where
  "GetMonitorInfo m w =
     (let w1 = log_call (C_GetMonitorInfo m) w in
      case map_of (displays w1) m of
        None \<Rightarrow> (Inl (pywintypes_error ERROR_INVALID_MONITOR_HANDLE ''GetMonitorInfo''), w1)
      | Some i \<Rightarrow> (Inr i, w1))"

text \<open>
  \<^verbatim>\<open>SetWindowPos(hwnd, insertAfter, x, y, cx, cy, flags)\<close>: moves the window's top-left
  corner to (x, y) in screen coordinates unless SWP_NOMOVE, gives it width cx and height cy
  unless SWP_NOSIZE, and sets the WS_VISIBLE bit when SWP_SHOWWINDOW is given. It raises
  for a handle that is no window and for a window of an elevated process. The z-order is
  not represented.
\<close>

definition SetWindowPos ::
  "hwnd \<Rightarrow> hwnd \<Rightarrow> int \<Rightarrow> int \<Rightarrow> int \<Rightarrow> int \<Rightarrow> 32 word \<Rightarrow> world \<Rightarrow> (exn + unit) \<times> world" where
  "SetWindowPos h after x y cx cy flags w =
     (let w1 = log_call (C_SetWindowPos h after x y cx cy flags) w in
      case lookup_window w1 h of
        None \<Rightarrow> (Inl (pywintypes_error ERROR_INVALID_WINDOW_HANDLE ''SetWindowPos''), w1)
      | Some win \<Rightarrow>
          if elevated win then (Inl (pywintypes_error ERROR_ACCESS_DENIED ''SetWindowPos''), w1)
          else
            (case bounds win of (l, t, r, b) \<Rightarrow>
               let x' = (if flags AND SWP_NOMOVE \<noteq> 0 then l else x);
                   y' = (if flags AND SWP_NOMOVE \<noteq> 0 then t else y);
                   cx' = (if flags AND SWP_NOSIZE \<noteq> 0 then r - l else cx);
                   cy' = (if flags AND SWP_NOSIZE \<noteq> 0 then b - t else cy);
                   st' = (if flags AND SWP_SHOWWINDOW \<noteq> 0 then style win OR WS_VISIBLE else style win)
               in (Inr (),
                   w1\<lparr>toplevel :=
                        update_window h (\<lambda>z. z\<lparr>bounds := (x', y', x' + cx', y' + cy'), style := st'\<rparr>)
                          (toplevel w1)\<rparr>)))"

text \<open>
  \<^verbatim>\<open>SetMenu(hwnd, menu)\<close>: replaces the window's menu; \<^verbatim>\<open>None\<close> removes it, and on a
  window without a menu that changes nothing. It raises like \<^verbatim>\<open>SetWindowPos\<close>.
\<close>

definition SetMenu :: "hwnd \<Rightarrow> hmenu option \<Rightarrow> world \<Rightarrow> (exn + unit) \<times> world" where
  "SetMenu h m w =
     (let w1 = log_call (C_SetMenu h m) w in
      case lookup_window w1 h of
        None \<Rightarrow> (Inl (pywintypes_error ERROR_INVALID_WINDOW_HANDLE ''SetMenu''), w1)
      | Some x \<Rightarrow>
          if elevated x then (Inl (pywintypes_error ERROR_ACCESS_DENIED ''SetMenu''), w1)
          else (Inr (), w1\<lparr>toplevel := update_window h (\<lambda>z. z\<lparr>menu := m\<rparr>) (toplevel w1)\<rparr>))"

subsection \<open>Regular expressions\<close>

text \<open>
  A compiled pattern (\<^verbatim>\<open>re.Pattern\<close>) is an object. The model keeps its method
  \<^verbatim>\<open>search\<close>, as the truth value of what it returns on a title, and whether the
  pattern was compiled with \<^verbatim>\<open>re.I\<close>. Titles are strings of Latin-1 code points.
\<close>

record pattern =
  search :: "string \<Rightarrow> bool"
  ignorecase :: bool

text \<open>
  \<open>re_compile\<close> models \<^verbatim>\<open>re.compile\<close> on a fragment of its syntax: a sequence of
  literal characters, dots, and escaped punctuation. With \<^verbatim>\<open>re.I\<close> letters are
  compared without their case; a dot matches every character but the newline;
  \<^verbatim>\<open>search\<close> looks for a match starting at any position. On a regular expression
  outside the fragment \<open>re_compile\<close> says \<open>Unsupported_pattern\<close> and nothing about
  Python. It is used where a property is about a particular pattern, and for the examples;
  the program itself takes \<^verbatim>\<open>re.compile\<close> as a parameter.
\<close>

datatype atom = Lit char | AnyChar

definition lower :: "char \<Rightarrow> char" where
  "lower c =
     (let n = (of_char c :: nat) in
      if (65 \<le> n \<and> n \<le> 90) \<or> (192 \<le> n \<and> n \<le> 222 \<and> n \<noteq> 215) then char_of (n + 32) else c)"

definition is_meta :: "char \<Rightarrow> bool" where
  "is_meta c = (c \<in> set (CHR 0x5C # ''.^$*+?{}[]()|''))"

definition is_punct :: "char \<Rightarrow> bool" where
  "is_punct c =
     (let n = (of_char c :: nat) in
      (33 \<le> n \<and> n \<le> 47) \<or> (58 \<le> n \<and> n \<le> 64) \<or> (91 \<le> n \<and> n \<le> 96) \<or> (123 \<le> n \<and> n \<le> 126))"

fun parse :: "string \<Rightarrow> exn + atom list" where
  "parse [] = Inr []"
| "parse (c # cs) =
     (if c = CHR ''.'' then
        (case parse cs of Inl e \<Rightarrow> Inl e | Inr as \<Rightarrow> Inr (AnyChar # as))
      else if c = CHR 0x5C then
        (case cs of
           [] \<Rightarrow> Inl re_error
         | d # ds \<Rightarrow>
             if is_punct d then (case parse ds of Inl e \<Rightarrow> Inl e | Inr as \<Rightarrow> Inr (Lit d # as))
             else Inl Unsupported_pattern)
      else if is_meta c then Inl Unsupported_pattern
      else (case parse cs of Inl e \<Rightarrow> Inl e | Inr as \<Rightarrow> Inr (Lit c # as)))"

fun atom_matches :: "bool \<Rightarrow> atom \<Rightarrow> char \<Rightarrow> bool" where
  "atom_matches i AnyChar c = (c \<noteq> CHR 0x0A)"
| "atom_matches i (Lit p) c = (if i then lower p = lower c else p = c)"

fun match_here :: "bool \<Rightarrow> atom list \<Rightarrow> string \<Rightarrow> bool" where
  "match_here i [] s = True"
| "match_here i (a # as) [] = False"
| "match_here i (a # as) (c # cs) = (atom_matches i a c \<and> match_here i as cs)"

fun search_from :: "bool \<Rightarrow> atom list \<Rightarrow> string \<Rightarrow> bool" where
  "search_from i as [] = match_here i as []"
| "search_from i as (c # cs) = (match_here i as (c # cs) \<or> search_from i as cs)"

definition re_compile :: "string \<Rightarrow> bool \<Rightarrow> exn + pattern" where
  "re_compile pat flag_I =
     (case parse pat of
        Inl e \<Rightarrow> Inl e
      | Inr as \<Rightarrow> Inr \<lparr>search = search_from flag_I as, ignorecase = flag_I\<rparr>)"

subsection \<open>The program\<close>

text \<open>
  \<^verbatim>\<open>BORDERLESS_STYLE = con.WS_VISIBLE | con.WS_POPUP | con.WS_CLIPCHILDREN\<close>
\<close>

definition BORDERLESS_STYLE :: "32 word" where
  "BORDERLESS_STYLE = WS_VISIBLE OR WS_POPUP OR WS_CLIPCHILDREN"

text \<open>
  The callback of \<^verbatim>\<open>get_windows\<close>. Its closure captures the list \<^verbatim>\<open>windows\<close>, which it
  appends to; \<^verbatim>\<open>raise StopIteration\<close> is the result \<open>Inl StopIteration\<close>.
\<close>

definition get_windows_callback ::
  "pattern list \<Rightarrow> bool \<Rightarrow> hwnd \<Rightarrow> hwnd list \<times> world \<Rightarrow> (exn + unit) \<times> hwnd list \<times> world" where
  "get_windows_callback patterns all_matches hwnd st =
     (case st of (windows, w) \<Rightarrow>
        (case IsWindowVisible hwnd w of (vis, w1) \<Rightarrow>
           if vis then
             (case GetWindowText hwnd w1 of (title, w2) \<Rightarrow>
                if list_ex (\<lambda>pattern. search pattern title) patterns then
                  (let windows' = windows @ [hwnd] in
                   if \<not> all_matches then (Inl StopIteration, windows', w2)
                   else (Inr (), windows', w2))
                else (Inr (), windows, w2))
           else (Inr (), windows, w1)))"

text \<open>
  \<^verbatim>\<open>get_windows\<close>: the \<^verbatim>\<open>try\<close> catches \<^verbatim>\<open>StopIteration\<close> and nothing else.
\<close>

definition get_windows :: "pattern list \<Rightarrow> bool \<Rightarrow> world \<Rightarrow> (exn + hwnd list) \<times> world" where
  "get_windows patterns all_matches w =
     (case EnumWindows (get_windows_callback patterns all_matches) ([], w) of
        (Inl StopIteration, windows, w') \<Rightarrow> (Inr windows, w')
      | (Inl e, windows, w') \<Rightarrow> (Inl e, w')
      | (Inr _, windows, w') \<Rightarrow> (Inr windows, w'))"

definition get_monitor :: "hwnd \<Rightarrow> world \<Rightarrow> (exn + monitor_info) \<times> world" where
  "get_monitor hwnd w =
     (case MonitorFromWindow hwnd MONITOR_DEFAULTTONEAREST w of
        (m, w1) \<Rightarrow> GetMonitorInfo m w1)"

definition strip_decorations :: "hwnd \<Rightarrow> world \<Rightarrow> (exn + unit) \<times> world" where
  "strip_decorations hwnd w = SetMenu hwnd None w"

text \<open>The slice \<^verbatim>\<open>[2:]\<close> of a RECT tuple: its last two components.\<close>

fun slice_from_2 :: "rect \<Rightarrow> int \<times> int" where
  "slice_from_2 (l, t, r, b) = (r, b)"

definition make_fullscreen :: "hwnd \<Rightarrow> world \<Rightarrow> (exn + unit) \<times> world" where
  "make_fullscreen hwnd w =
     (case SetWindowLong hwnd GWL_STYLE BORDERLESS_STYLE w of (_, w1) \<Rightarrow>
        (case get_monitor hwnd w1 of
           (Inl e, w2) \<Rightarrow> (Inl e, w2)
         | (Inr info, w2) \<Rightarrow>
             (case slice_from_2 (Monitor info) of (width, height) \<Rightarrow>
                SetWindowPos hwnd HWND_TOP 0 0 width height
                  (SWP_FRAMECHANGED OR SWP_SHOWWINDOW) w2)))"

text \<open>The namespace \<^verbatim>\<open>argparse\<close> hands to \<^verbatim>\<open>main\<close>.\<close>

record args =
  args_patterns :: "string list"
  args_all_matches :: bool
  args_case_insensitive :: bool
  args_monitor :: int
  args_remove_decorations :: bool

text \<open>
  The list comprehension of \<^verbatim>\<open>main\<close>: each raw pattern is compiled with the same
  flag, left to right; the first one that fails to compile raises. \<open>compile\<close> stands for
  \<^verbatim>\<open>re.compile\<close>, its second argument for whether the flag is \<^verbatim>\<open>re.I\<close> or 0.
\<close>

fun compile_all ::
  "(string \<Rightarrow> bool \<Rightarrow> exn + pattern) \<Rightarrow> string list \<Rightarrow> bool \<Rightarrow> exn + pattern list" where
  "compile_all compile [] flag_I = Inr []"
| "compile_all compile (pat # pats) flag_I =
     (case compile pat flag_I of
        Inl e \<Rightarrow> Inl e
      | Inr p \<Rightarrow>
          (case compile_all compile pats flag_I of Inl e \<Rightarrow> Inl e | Inr ps \<Rightarrow> Inr (p # ps)))"

definition print :: "hwnd list \<Rightarrow> world \<Rightarrow> world" where
  "print matches w = w\<lparr>stdout := stdout w @ [matches]\<rparr>"

text \<open>The loop \<^verbatim>\<open>for window in matches: make_fullscreen(window)\<close>; nothing catches what the body raises.\<close>

fun for_each_window :: "hwnd list \<Rightarrow> world \<Rightarrow> (exn + unit) \<times> world" where
  "for_each_window [] w = (Inr (), w)"
| "for_each_window (window # rest) w =
     (case make_fullscreen window w of
        (Inl e, w') \<Rightarrow> (Inl e, w')
      | (Inr _, w') \<Rightarrow> for_each_window rest w')"

definition main ::
  "(string \<Rightarrow> bool \<Rightarrow> exn + pattern) \<Rightarrow> args \<Rightarrow> world \<Rightarrow> (exn + int) \<times> world" where
  "main compile a w =
     (case compile_all compile (args_patterns a) (args_case_insensitive a) of
        Inl e \<Rightarrow> (Inl e, w)
      | Inr patterns \<Rightarrow>
          (case get_windows patterns (args_all_matches a) w of
             (Inl e, w1) \<Rightarrow> (Inl e, w1)
           | (Inr matches, w1) \<Rightarrow>
               (case for_each_window matches (print matches w1) of
                  (Inl e, w2) \<Rightarrow> (Inl e, w2)
                | (Inr _, w2) \<Rightarrow> (Inr 0, w2))))"

subsection \<open>Vocabulary of the properties\<close>

text \<open>
  A window the enumeration selects: a top-level window whose style has WS_VISIBLE and
  whose title is found by at least one pattern.
\<close>

definition is_match :: "pattern list \<Rightarrow> world \<Rightarrow> hwnd \<Rightarrow> bool" where
  "is_match P w h =
     (case lookup_window w h of
        None \<Rightarrow> False
      | Some x \<Rightarrow> style x AND WS_VISIBLE \<noteq> 0 \<and> list_ex (\<lambda>p. search p (window_text x)) P)"

text \<open>The calls made between two states of the host.\<close>

definition new_calls :: "world \<Rightarrow> world \<Rightarrow> call list" where
  "new_calls w w' = drop (length (calls w)) (calls w')"

text \<open>The windows an enumeration has visited: those its callback asked the visibility of.\<close>

fun visited :: "call list \<Rightarrow> hwnd list" where
  "visited [] = []"
| "visited (C_IsWindowVisible h # cs) = h # visited cs"
| "visited (c # cs) = visited cs"

text \<open>The windows whose transition was started: each \<^verbatim>\<open>make_fullscreen\<close> begins with \<^verbatim>\<open>SetWindowLong\<close>.\<close>

fun transition_targets :: "call list \<Rightarrow> hwnd list" where
  "transition_targets [] = []"
| "transition_targets (C_SetWindowLong h i v # cs) = h # transition_targets cs"
| "transition_targets (c # cs) = transition_targets cs"




fun is_menu_removal :: "call \<Rightarrow> bool" where
  "is_menu_removal (C_SetMenu h m) = True"
| "is_menu_removal c = False"


subsection \<open>Example desktops\<close>

definition monitor_primary :: monitor_info where
  "monitor_primary =
     \<lparr>Monitor = (0, 0, 1920, 1080), Work = (0, 0, 1920, 1040), Flags = 1, Device = ''DISPLAY1''\<rparr>"

definition monitor_second :: monitor_info where
  "monitor_second =
     \<lparr>Monitor = (1920, 0, 3200, 1024), Work = (1920, 0, 3200, 1024), Flags = 0, Device = ''DISPLAY2''\<rparr>"

text \<open>An overlapped, visible window with a menu, at (100, 100), 640 wide and 480 high.\<close>

definition game_window :: window where
  "game_window =
     \<lparr>window_text = ''my game window'', style = 0x14CF0000, bounds = (100, 100, 740, 580),
      menu = Some 7, elevated = False\<rparr>"

text \<open>One monitor of 1920 by 1080 at the origin, and the window on it.\<close>

definition desk_single :: world where
  "desk_single =
     \<lparr>toplevel = [(1, game_window)], displays = [(1, monitor_primary)],
      enum_fault = False, calls = [], stdout = []\<rparr>"

text \<open>A second monitor of 1280 by 1024 to the right of the first, and the window on the second.\<close>

definition desk_dual :: world where
  "desk_dual =
     \<lparr>toplevel = [(1, game_window\<lparr>bounds := (2020, 100, 2660, 580)\<rparr>)],
      displays = [(1, monitor_primary), (2, monitor_second)],
      enum_fault = False, calls = [], stdout = []\<rparr>"

text \<open>
  Five windows on one monitor: three visible games, the second of them owned by an
  elevated process, a hidden game, and a visible editor.
\<close>

definition desk_batch :: world where
  "desk_batch =
     \<lparr>toplevel =
        [(1, game_window\<lparr>window_text := ''Game one''\<rparr>),
         (2, game_window\<lparr>window_text := ''Game two'', elevated := True\<rparr>),
         (3, game_window\<lparr>window_text := ''Game three''\<rparr>),
         (4, game_window\<lparr>window_text := ''Game hidden'', style := 0x04CF0000\<rparr>),
         (5, game_window\<lparr>window_text := ''Untitled - Notepad''\<rparr>)],
      displays = [(1, monitor_primary)],
      enum_fault = False, calls = [], stdout = []\<rparr>"

text \<open>What \<open>re_compile\<close> makes of the pattern \<^verbatim>\<open>Game\<close>.\<close>

definition pattern_Game :: "bool \<Rightarrow> pattern" where
  "pattern_Game flag_I =
     \<lparr>search = search_from flag_I [Lit CHR ''G'', Lit CHR ''a'', Lit CHR ''m'', Lit CHR ''e''],
      ignorecase = flag_I\<rparr>"


text \<open>The command line \<^verbatim>\<open>pywwb -i -d Game\<close>.\<close>

definition args_strip :: args where
  "args_strip =
     \<lparr>args_patterns = [''Game''], args_all_matches = False, args_case_insensitive = True,
      args_monitor = 0, args_remove_decorations = True\<rparr>"

text \<open>The command line \<^verbatim>\<open>pywwb -a Game\<close>.\<close>

definition args_all :: args where
  "args_all =
     \<lparr>args_patterns = [''Game''], args_all_matches = True, args_case_insensitive = False,
      args_monitor = 0, args_remove_decorations = False\<rparr>"

section \<open>Enumeration\<close>

lemma lookup_window_log_call [simp]: "lookup_window (log_call c w) h = lookup_window w h"
  by (simp add: lookup_window_def log_call_def)

lemma toplevel_log_call [simp]: "toplevel (log_call c w) = toplevel w"
  by (simp add: log_call_def)

lemma enum_fault_log_call [simp]: "enum_fault (log_call c w) = enum_fault w"
  by (simp add: log_call_def)

lemma calls_log_call [simp]: "calls (log_call c w) = calls w @ [c]"
  by (simp add: log_call_def)

lemma displays_log_call [simp]: "displays (log_call c w) = displays w"
  by (simp add: log_call_def)

lemma is_match_toplevel: "toplevel w' = toplevel w \<Longrightarrow> is_match P w' h = is_match P w h"
  by (simp add: is_match_def lookup_window_def)

lemma visited_append [simp]: "visited (xs @ ys) = visited xs @ visited ys"
  by (induction xs rule: visited.induct) simp_all

text \<open>One step of the callback: on a window that matches, and on one that does not.\<close>

lemma callback_match:
  "is_match P w h \<Longrightarrow>
   get_windows_callback P am h (acc, w) =
     (if am then Inr () else Inl StopIteration, acc @ [h],
      log_call (C_GetWindowText h) (log_call (C_IsWindowVisible h) w))"
  by (auto simp: get_windows_callback_def IsWindowVisible_def GetWindowText_def is_match_def
      split: option.splits)

lemma callback_no_match:
  "\<not> is_match P w h \<Longrightarrow>
   \<exists>w'. get_windows_callback P am h (acc, w) = (Inr (), acc, w') \<and> toplevel w' = toplevel w
     \<and> enum_fault w' = enum_fault w \<and> (\<exists>cs. calls w' = calls w @ cs \<and> visited cs = [h])"
  by (auto simp: get_windows_callback_def IsWindowVisible_def GetWindowText_def is_match_def
      split: option.splits)

lemma enum_loop_all:
  "\<exists>w' cs. enum_loop (get_windows_callback P True) hs (acc, w) =
      (Inr (), acc @ filter (is_match P w) hs, w')
    \<and> toplevel w' = toplevel w \<and> calls w' = calls w @ cs \<and> visited cs = hs"
proof (induction hs arbitrary: acc w)
  case Nil
  then show ?case by simp
next
  case (Cons h hs)
  show ?case
  proof (cases "is_match P w h")
    case True
    let ?w1 = "log_call (C_GetWindowText h) (log_call (C_IsWindowVisible h) w)"
    have tl: "toplevel ?w1 = toplevel w" by simp
    from Cons.IH [of "acc @ [h]" ?w1] obtain w' cs where
      "enum_loop (get_windows_callback P True) hs (acc @ [h], ?w1) =
         (Inr (), (acc @ [h]) @ filter (is_match P ?w1) hs, w')"
      "toplevel w' = toplevel ?w1" "calls w' = calls ?w1 @ cs" "visited cs = hs"
      by blast
    moreover have "is_match P ?w1 = is_match P w"
      using is_match_toplevel [OF tl] by auto
    ultimately show ?thesis
      using True by (simp add: callback_match)
  next
    case False
    from callback_no_match [OF False, of True acc] obtain w1 cs1 where
      s: "get_windows_callback P True h (acc, w) = (Inr (), acc, w1)"
      "toplevel w1 = toplevel w" "calls w1 = calls w @ cs1" "visited cs1 = [h]"
      by blast
    from Cons.IH [of acc w1] obtain w' cs where
      "enum_loop (get_windows_callback P True) hs (acc, w1) =
         (Inr (), acc @ filter (is_match P w1) hs, w')"
      "toplevel w' = toplevel w1" "calls w' = calls w1 @ cs" "visited cs = hs"
      by blast
    moreover have "is_match P w1 = is_match P w"
      using is_match_toplevel [OF s(2)] by auto
    ultimately show ?thesis
      using False s by simp
  qed
qed

lemma enum_loop_first:
  "\<exists>w' cs. enum_loop (get_windows_callback P False) hs (acc, w) =
      (if filter (is_match P w) hs = [] then Inr () else Inl StopIteration,
       acc @ take 1 (filter (is_match P w) hs), w')
    \<and> toplevel w' = toplevel w \<and> calls w' = calls w @ cs
    \<and> visited cs = takeWhile (\<lambda>h. \<not> is_match P w h) hs @ take 1 (filter (is_match P w) hs)"
proof (induction hs arbitrary: acc w)
  case Nil
  then show ?case by simp
next
  case (Cons h hs)
  show ?case
  proof (cases "is_match P w h")
    case True
    then show ?thesis by (simp add: callback_match)
  next
    case False
    from callback_no_match [OF False, of False acc] obtain w1 cs1 where
      s: "get_windows_callback P False h (acc, w) = (Inr (), acc, w1)"
      "toplevel w1 = toplevel w" "calls w1 = calls w @ cs1" "visited cs1 = [h]"
      by blast
    from Cons.IH [of acc w1] obtain w' cs where
      "enum_loop (get_windows_callback P False) hs (acc, w1) =
         (if filter (is_match P w1) hs = [] then Inr () else Inl StopIteration,
          acc @ take 1 (filter (is_match P w1) hs), w')"
      "toplevel w' = toplevel w1" "calls w' = calls w1 @ cs"
      "visited cs = takeWhile (\<lambda>h. \<not> is_match P w1 h) hs @ take 1 (filter (is_match P w1) hs)"
      by blast
    moreover have "is_match P w1 = is_match P w"
      using is_match_toplevel [OF s(2)] by auto
    ultimately show ?thesis
      using False s by simp
  qed
qed


lemma get_windows_all_eq:
  "\<not> enum_fault w \<Longrightarrow>
   \<exists>w' cs. get_windows P True w = (Inr (filter (is_match P w) (map fst (toplevel w))), w')
     \<and> toplevel w' = toplevel w
     \<and> calls w' = calls w @ C_EnumWindows # cs \<and> visited cs = map fst (toplevel w)"
proof -
  assume ok: "\<not> enum_fault w"
  let ?w1 = "log_call C_EnumWindows w"
  from enum_loop_all [of P "map fst (toplevel w)" "[]" ?w1] obtain w' cs where
    e: "enum_loop (get_windows_callback P True) (map fst (toplevel w)) ([], ?w1) =
         (Inr (), [] @ filter (is_match P ?w1) (map fst (toplevel w)), w')"
    "toplevel w' = toplevel ?w1" "calls w' = calls ?w1 @ cs" "visited cs = map fst (toplevel w)"
    by blast
  have "is_match P ?w1 = is_match P w"
    using is_match_toplevel [of ?w1 w P] by auto
  with e ok show ?thesis
    by (simp add: get_windows_def EnumWindows_def)
qed

lemma get_windows_first_eq:
  "\<not> enum_fault w \<Longrightarrow>
   \<exists>w' cs. get_windows P False w = (Inr (take 1 (filter (is_match P w) (map fst (toplevel w)))), w')
     \<and> toplevel w' = toplevel w
     \<and> calls w' = calls w @ C_EnumWindows # cs
     \<and> visited cs = takeWhile (\<lambda>h. \<not> is_match P w h) (map fst (toplevel w))
          @ take 1 (filter (is_match P w) (map fst (toplevel w)))"
proof -
  assume ok: "\<not> enum_fault w"
  let ?w1 = "log_call C_EnumWindows w"
  let ?hs = "map fst (toplevel w)"
  from enum_loop_first [of P ?hs "[]" ?w1] obtain w' cs where
    e: "enum_loop (get_windows_callback P False) ?hs ([], ?w1) =
         (if filter (is_match P ?w1) ?hs = [] then Inr () else Inl StopIteration,
          [] @ take 1 (filter (is_match P ?w1) ?hs), w')"
    "toplevel w' = toplevel ?w1" "calls w' = calls ?w1 @ cs"
    "visited cs = takeWhile (\<lambda>h. \<not> is_match P ?w1 h) ?hs @ take 1 (filter (is_match P ?w1) ?hs)"
    by blast
  have "is_match P ?w1 = is_match P w"
    using is_match_toplevel [of ?w1 w P] by auto
  with e ok show ?thesis
    by (simp add: get_windows_def EnumWindows_def)
qed

lemma get_windows_fault:
  "enum_fault w \<Longrightarrow>
   get_windows P am w =
     (Inl (pywintypes_error ERROR_NOT_SUPPORTED ''EnumWindows''), log_call C_EnumWindows w)"
  by (simp add: get_windows_def EnumWindows_def)

lemma is_match_no_patterns [simp]: "\<not> is_match [] w h"
  by (simp add: is_match_def split: option.splits)

lemma is_match_iff:
  "is_match P w h \<longleftrightarrow>
     (\<exists>x. lookup_window w h = Some x \<and> style x AND WS_VISIBLE \<noteq> 0
        \<and> (\<exists>p \<in> set P. search p (window_text x)))"
  by (auto simp: is_match_def list_ex_iff split: option.splits)

lemma is_match_toplevel_member:
  assumes "is_match P w h"
  shows "h \<in> set (map fst (toplevel w))"
proof -
  from assms obtain x where "map_of (toplevel w) h = Some x"
    by (auto simp: is_match_def lookup_window_def split: option.splits)
  then have "(h, x) \<in> set (toplevel w)"
    by (rule map_of_SomeD)
  then have "fst (h, x) \<in> fst ` set (toplevel w)"
    by (rule imageI)
  then show ?thesis by simp
qed

text \<open>
  Claim C4. With every matching window wanted (\<^verbatim>\<open>all_matches=True\<close>), on a desktop whose
  enumeration works and whose windows have distinct handles, \<^verbatim>\<open>get_windows\<close> returns
  a list: a handle is in it exactly when it is a top-level window that is visible and whose
  title is found by at least one of the patterns; no handle is in it twice; and with no
  pattern at all the list is empty.
\<close>

theorem get_windows_all_matches:
  assumes "\<not> enum_fault w" and "distinct (map fst (toplevel w))"
  shows "\<exists>ws w'. get_windows P True w = (Inr ws, w')
           \<and> (\<forall>h. h \<in> set ws \<longleftrightarrow>
                 (\<exists>x. lookup_window w h = Some x \<and> style x AND WS_VISIBLE \<noteq> 0
                    \<and> (\<exists>p \<in> set P. search p (window_text x))))
           \<and> distinct ws
           \<and> (P = [] \<longrightarrow> ws = [])"
proof -
  let ?ws = "filter (is_match P w) (map fst (toplevel w))"
  from get_windows_all_eq [OF assms(1), of P] obtain w' where
    g: "get_windows P True w = (Inr ?ws, w')" by blast
  have "\<forall>h. h \<in> set ?ws \<longleftrightarrow>
          (\<exists>x. lookup_window w h = Some x \<and> style x AND WS_VISIBLE \<noteq> 0
             \<and> (\<exists>p \<in> set P. search p (window_text x)))"
    using is_match_toplevel_member [of P w] is_match_iff [of P w] by auto
  moreover have "distinct ?ws" using assms(2) by simp
  moreover have "P = [] \<longrightarrow> ?ws = []" by simp
  ultimately show ?thesis using g by (intro exI [of _ ?ws] exI [of _ w']) simp
qed

text \<open>
  Claim C5. With only the first match wanted (\<^verbatim>\<open>all_matches=False\<close>), \<^verbatim>\<open>get_windows\<close>
  returns a list of length 0 or 1, namely the first element (if any) of the list it returns
  when every match is wanted, so its element is one of those. The windows its callback
  visits are the windows before the first match, none of which matches, and then the first
  match; the windows after it are not visited, whereas with every match wanted all windows
  are.
\<close>

theorem get_windows_first_only:
  assumes "\<not> enum_fault w"
  shows "\<exists>ws w1 ws_all w2.
           get_windows P False w = (Inr ws, w1) \<and> get_windows P True w = (Inr ws_all, w2)
           \<and> (length ws = 0 \<or> length ws = 1)
           \<and> set ws \<subseteq> set ws_all
           \<and> ws = take 1 ws_all
           \<and> visited (new_calls w w1)
               = takeWhile (\<lambda>h. \<not> is_match P w h) (map fst (toplevel w)) @ ws
           \<and> visited (new_calls w w2) = map fst (toplevel w)"
proof -
  let ?all = "filter (is_match P w) (map fst (toplevel w))"
  from get_windows_first_eq [OF assms, of P] obtain w1 cs1 where
    f: "get_windows P False w = (Inr (take 1 ?all), w1)"
       "calls w1 = calls w @ C_EnumWindows # cs1"
       "visited cs1 = takeWhile (\<lambda>h. \<not> is_match P w h) (map fst (toplevel w)) @ take 1 ?all"
    by blast
  from get_windows_all_eq [OF assms, of P] obtain w2 cs2 where
    a: "get_windows P True w = (Inr ?all, w2)"
       "calls w2 = calls w @ C_EnumWindows # cs2" "visited cs2 = map fst (toplevel w)"
    by blast
  have l: "length (take 1 ?all) = 0 \<or> length (take 1 ?all) = 1"
    by (cases ?all) simp_all
  have s: "set (take 1 ?all) \<subseteq> set ?all"
    by (rule set_take_subset)
  have v1: "visited (new_calls w w1)
      = takeWhile (\<lambda>h. \<not> is_match P w h) (map fst (toplevel w)) @ take 1 ?all"
    using f by (simp add: new_calls_def)
  have v2: "visited (new_calls w w2) = map fst (toplevel w)"
    using a by (simp add: new_calls_def)
  show ?thesis
    using f(1) a(1) l s v1 v2
    by (intro exI [of _ "take 1 ?all"] exI [of _ w1] exI [of _ ?all] exI [of _ w2]) simp
qed

text \<open>
  Claim C10. \<^verbatim>\<open>StopIteration\<close> never leaves \<^verbatim>\<open>get_windows\<close>, whatever the patterns,
  the policy and the desktop; and whenever the enumeration facility works, \<^verbatim>\<open>get_windows\<close>
  returns a list.
\<close>

theorem get_windows_catches_StopIteration:
  "fst (get_windows P am w) \<noteq> Inl StopIteration
   \<and> (\<not> enum_fault w \<longrightarrow> (\<exists>ws. fst (get_windows P am w) = Inr ws))"
proof (cases "enum_fault w")
  case True
  then show ?thesis by (simp add: get_windows_fault)
next
  case False
  show ?thesis
  proof (cases am)
    case True
    with get_windows_all_eq [OF False, of P] show ?thesis by auto
  next
    case f: False
    with get_windows_first_eq [OF False, of P] show ?thesis by auto
  qed
qed


theorem get_windows_all_matches_witness:
  "\<not> enum_fault desk_batch \<and> distinct (map fst (toplevel desk_batch))
   \<and> (\<exists>ws w'. get_windows [pattern_Game False] True desk_batch = (Inr ws, w')
         \<and> (\<forall>h. h \<in> set ws \<longleftrightarrow>
               (\<exists>x. lookup_window desk_batch h = Some x \<and> style x AND WS_VISIBLE \<noteq> 0
                  \<and> (\<exists>p \<in> set [pattern_Game False]. search p (window_text x))))
         \<and> distinct ws
         \<and> ([pattern_Game False] = [] \<longrightarrow> ws = []))
   \<and> fst (get_windows [pattern_Game False] True desk_batch) = Inr [1, 2, 3]
   \<and> fst (get_windows [] True desk_batch) = Inr []"
proof -
  have h1: "\<not> enum_fault desk_batch"
    by (simp add: desk_batch_def)
  have h2: "distinct (map fst (toplevel desk_batch))"
    by (simp add: desk_batch_def)
  have e1: "fst (get_windows [pattern_Game False] True desk_batch) = Inr [1, 2, 3]"
    by code_simp
  have e2: "fst (get_windows [] True desk_batch) = Inr []"
    by code_simp
  from h1 h2 e1 e2 get_windows_all_matches [OF h1 h2, of "[pattern_Game False]"]
  show ?thesis by simp
qed

theorem get_windows_first_only_witness:
  "\<not> enum_fault desk_batch
   \<and> (\<exists>ws w1 ws_all w2.
         get_windows [pattern_Game False] False desk_batch = (Inr ws, w1)
         \<and> get_windows [pattern_Game False] True desk_batch = (Inr ws_all, w2)
         \<and> (length ws = 0 \<or> length ws = 1)
         \<and> set ws \<subseteq> set ws_all
         \<and> ws = take 1 ws_all
         \<and> visited (new_calls desk_batch w1)
             = takeWhile (\<lambda>h. \<not> is_match [pattern_Game False] desk_batch h)
                 (map fst (toplevel desk_batch)) @ ws
         \<and> visited (new_calls desk_batch w2) = map fst (toplevel desk_batch))
   \<and> fst (get_windows [pattern_Game False] False desk_batch) = Inr [1]
   \<and> visited (calls (snd (get_windows [pattern_Game False] False desk_batch))) = [1]
   \<and> visited (calls (snd (get_windows [pattern_Game False] True desk_batch))) = [1, 2, 3, 4, 5]"
proof -
  have h1: "\<not> enum_fault desk_batch"
    by (simp add: desk_batch_def)
  have e1: "fst (get_windows [pattern_Game False] False desk_batch) = Inr [1]"
    by code_simp
  have e2: "visited (calls (snd (get_windows [pattern_Game False] False desk_batch))) = [1]"
    by code_simp
  have e3: "visited (calls (snd (get_windows [pattern_Game False] True desk_batch))) = [1, 2, 3, 4, 5]"
    by code_simp
  from h1 e1 e2 e3 get_windows_first_only [OF h1, of "[pattern_Game False]"]
  show ?thesis by simp
qed

theorem get_windows_catches_StopIteration_witness:
  "\<not> enum_fault desk_batch
   \<and> fst (get_windows [pattern_Game False] False desk_batch) \<noteq> Inl StopIteration
   \<and> (\<exists>ws. fst (get_windows [pattern_Game False] False desk_batch) = Inr ws)"
proof -
  have h1: "\<not> enum_fault desk_batch"
    by (simp add: desk_batch_def)
  from h1 get_windows_catches_StopIteration [of "[pattern_Game False]" False desk_batch]
  show ?thesis by simp
qed

section \<open>The transition\<close>

lemma map_of_update_window:
  "map_of (update_window h f ws) k =
     (if k = h then map_option f (map_of ws h) else map_of ws k)"
  by (induction ws) auto

lemma map_fst_update_window [simp]: "map fst (update_window h f ws) = map fst ws"
  by (induction ws) auto

lemma borderless_value: "BORDERLESS_STYLE = 0x92000000"
  by (simp add: BORDERLESS_STYLE_def WS_VISIBLE_def WS_POPUP_def WS_CLIPCHILDREN_def)

lemma borderless_visible [simp]: "BORDERLESS_STYLE OR WS_VISIBLE = BORDERLESS_STYLE"
  by (simp add: BORDERLESS_STYLE_def WS_VISIBLE_def WS_POPUP_def WS_CLIPCHILDREN_def)

lemma flags_show [simp]:
  "(SWP_FRAMECHANGED OR SWP_SHOWWINDOW) AND SWP_SHOWWINDOW \<noteq> 0"
  "(SWP_FRAMECHANGED OR SWP_SHOWWINDOW) AND SWP_NOMOVE = 0"
  "(SWP_FRAMECHANGED OR SWP_SHOWWINDOW) AND SWP_NOSIZE = 0"
  by (simp_all add: SWP_FRAMECHANGED_def SWP_SHOWWINDOW_def SWP_NOMOVE_def SWP_NOSIZE_def)

text \<open>The library calls of \<^verbatim>\<open>make_fullscreen\<close>, each on its own.\<close>

lemma SetWindowLong_style:
  "lookup_window w h = Some x \<Longrightarrow> \<not> elevated x \<Longrightarrow>
   SetWindowLong h GWL_STYLE v w =
     (style x, (log_call (C_SetWindowLong h GWL_STYLE v) w)
        \<lparr>toplevel := update_window h (\<lambda>x. x\<lparr>style := v\<rparr>) (toplevel w)\<rparr>)"
  by (simp add: SetWindowLong_def Let_def)

lemma SetWindowLong_calls:
  "calls (snd (SetWindowLong h i v w)) = calls w @ [C_SetWindowLong h i v]"
  by (simp add: SetWindowLong_def Let_def split: option.splits)

lemma get_monitor_state:
  "snd (get_monitor h w) =
     log_call (C_GetMonitorInfo (fst (MonitorFromWindow h MONITOR_DEFAULTTONEAREST w)))
       (log_call (C_MonitorFromWindow h MONITOR_DEFAULTTONEAREST) w)"
  by (simp add: get_monitor_def MonitorFromWindow_def GetMonitorInfo_def Let_def
      split: option.splits)

lemma SetWindowPos_calls:
  "calls (snd (SetWindowPos h a x y cx cy f w)) = calls w @ [C_SetWindowPos h a x y cx cy f]"
  by (simp add: SetWindowPos_def Let_def split: option.splits prod.splits)

text \<open>
  The calls \<^verbatim>\<open>make_fullscreen\<close> makes, in the order it makes them: the style is written,
  the monitor is looked up and asked for its rectangle, and only when that succeeded the
  window is moved and resized.
\<close>

lemma make_fullscreen_calls:
  "\<exists>m tail. calls (snd (make_fullscreen hwnd w)) =
      calls w @ [C_SetWindowLong hwnd GWL_STYLE BORDERLESS_STYLE,
                 C_MonitorFromWindow hwnd MONITOR_DEFAULTTONEAREST,
                 C_GetMonitorInfo m] @ tail
    \<and> (tail = [] \<or> (\<exists>cx cy. tail =
          [C_SetWindowPos hwnd HWND_TOP 0 0 cx cy (SWP_FRAMECHANGED OR SWP_SHOWWINDOW)]))"
proof -
  obtain v w1 where s1: "SetWindowLong hwnd GWL_STYLE BORDERLESS_STYLE w = (v, w1)"
    by (cases "SetWindowLong hwnd GWL_STYLE BORDERLESS_STYLE w")
  have c1: "calls w1 = calls w @ [C_SetWindowLong hwnd GWL_STYLE BORDERLESS_STYLE]"
    using SetWindowLong_calls [of hwnd GWL_STYLE BORDERLESS_STYLE w] s1 by simp
  obtain r w2 where s2: "get_monitor hwnd w1 = (r, w2)"
    by (cases "get_monitor hwnd w1")
  let ?m = "fst (MonitorFromWindow hwnd MONITOR_DEFAULTTONEAREST w1)"
  have c2: "calls w2 = calls w1 @ [C_MonitorFromWindow hwnd MONITOR_DEFAULTTONEAREST, C_GetMonitorInfo ?m]"
    using get_monitor_state [of hwnd w1] s2 by simp
  show ?thesis
  proof (cases r)
    case (Inl e)
    then have "make_fullscreen hwnd w = (Inl e, w2)"
      using s1 s2 by (simp add: make_fullscreen_def)
    then show ?thesis using c1 c2 by simp
  next
    case (Inr info)
    obtain l t rr b where m: "Monitor info = (l, t, rr, b)"
      by (cases "Monitor info")
    have "make_fullscreen hwnd w =
        SetWindowPos hwnd HWND_TOP 0 0 rr b (SWP_FRAMECHANGED OR SWP_SHOWWINDOW) w2"
      using s1 s2 Inr m by (simp add: make_fullscreen_def)
    then show ?thesis using c1 c2 SetWindowPos_calls [of hwnd HWND_TOP 0 0 rr b _ w2] by simp
  qed
qed


subsection \<open>Order of the steps\<close>








subsection \<open>The style after a transition\<close>

text \<open>A transition that succeeds was asked of a window that exists and is not elevated.\<close>

lemma make_fullscreen_success_live:
  assumes "fst (make_fullscreen hwnd w) = Inr ()"
  shows "\<exists>x. lookup_window w hwnd = Some x \<and> \<not> elevated x"
proof (rule ccontr)
  assume n: "\<not> (\<exists>x. lookup_window w hwnd = Some x \<and> \<not> elevated x)"
  let ?w1 = "log_call (C_SetWindowLong hwnd GWL_STYLE BORDERLESS_STYLE) w"
  have s1: "SetWindowLong hwnd GWL_STYLE BORDERLESS_STYLE w = (0, ?w1)"
    using n by (auto simp: SetWindowLong_def Let_def split: option.splits)
  obtain r w2 where s2: "get_monitor hwnd ?w1 = (r, w2)"
    by (cases "get_monitor hwnd ?w1")
  have "toplevel w2 = toplevel w"
    using get_monitor_state [of hwnd ?w1] s2 by simp
  then have l2: "lookup_window w2 hwnd = lookup_window w hwnd"
    by (simp add: lookup_window_def)
  have "fst (SetWindowPos hwnd a x y cx cy f w2) \<noteq> Inr ()" for a x y cx cy f
    using n l2 by (auto simp: SetWindowPos_def Let_def split: option.splits)
  then have "fst (make_fullscreen hwnd w) \<noteq> Inr ()"
    using s1 s2 by (auto simp: make_fullscreen_def split: sum.splits prod.splits)
  with assms show False by simp
qed

text \<open>
  Claim C6. For every window that exists and is not owned by an elevated process, whatever
  its style was, after \<^verbatim>\<open>make_fullscreen\<close> its style is the constant
  visible | popup | clip-children (also when the monitor could not be resolved, since the
  style is written first).
\<close>

theorem make_fullscreen_style:
  assumes "lookup_window w hwnd = Some x" and "\<not> elevated x"
  shows "\<exists>x'. lookup_window (snd (make_fullscreen hwnd w)) hwnd = Some x'
           \<and> style x' = WS_VISIBLE OR WS_POPUP OR WS_CLIPCHILDREN"
proof -
  let ?w1 = "(log_call (C_SetWindowLong hwnd GWL_STYLE BORDERLESS_STYLE) w)
        \<lparr>toplevel := update_window hwnd (\<lambda>x. x\<lparr>style := BORDERLESS_STYLE\<rparr>) (toplevel w)\<rparr>"
  have s1: "SetWindowLong hwnd GWL_STYLE BORDERLESS_STYLE w = (style x, ?w1)"
    using assms by (rule SetWindowLong_style)
  have l1: "lookup_window ?w1 hwnd = Some (x\<lparr>style := BORDERLESS_STYLE\<rparr>)"
    using assms(1) by (simp add: lookup_window_def map_of_update_window log_call_def)
  obtain r w2 where s2: "get_monitor hwnd ?w1 = (r, w2)"
    by (cases "get_monitor hwnd ?w1")
  have t2: "toplevel w2 = toplevel ?w1"
    using get_monitor_state [of hwnd ?w1] s2 by simp
  then have l2: "lookup_window w2 hwnd = Some (x\<lparr>style := BORDERLESS_STYLE\<rparr>)"
    using l1 by (simp add: lookup_window_def)
  have "\<exists>x'. lookup_window (snd (make_fullscreen hwnd w)) hwnd = Some x'
           \<and> style x' = BORDERLESS_STYLE"
  proof (cases r)
    case (Inl e)
    then have "make_fullscreen hwnd w = (Inl e, w2)"
      using s1 s2 by (simp add: make_fullscreen_def)
    then show ?thesis using l2 by simp
  next
    case (Inr info)
    obtain l t rr b where m: "Monitor info = (l, t, rr, b)"
      by (cases "Monitor info")
    have "make_fullscreen hwnd w =
        SetWindowPos hwnd HWND_TOP 0 0 rr b (SWP_FRAMECHANGED OR SWP_SHOWWINDOW) w2"
      using s1 s2 Inr m by (simp add: make_fullscreen_def)
    then show ?thesis
      using l2 assms(2)
      by (simp add: SetWindowPos_def Let_def lookup_window_def map_of_update_window
          split: prod.splits)
  qed
  then show ?thesis by (simp add: BORDERLESS_STYLE_def)
qed

theorem make_fullscreen_style_witness:
  "lookup_window desk_single 1 = Some game_window \<and> \<not> elevated game_window
   \<and> style game_window = 0x14CF0000
   \<and> (\<exists>x'. lookup_window (snd (make_fullscreen 1 desk_single)) 1 = Some x'
          \<and> style x' = WS_VISIBLE OR WS_POPUP OR WS_CLIPCHILDREN)"
proof -
  have h1: "lookup_window desk_single 1 = Some game_window"
    by (simp add: lookup_window_def desk_single_def)
  have h2: "\<not> elevated game_window"
    by (simp add: game_window_def)
  have h3: "style game_window = 0x14CF0000"
    by (simp add: game_window_def)
  from h1 h2 h3 make_fullscreen_style [OF h1 h2] show ?thesis by simp
qed


subsection \<open>The rectangle after a transition\<close>

text \<open>
  Claim C1 fails on the code. On a desktop with a second monitor at (1920, 0), 1280 wide
  and 1024 high, and the window on it, \<^verbatim>\<open>make_fullscreen\<close> succeeds and resolves the
  second monitor, whose rectangle is (1920, 0, 3200, 1024); it then passes the rectangle's
  right and bottom as width and height and (0, 0) as position, so the window's rectangle
  becomes (0, 0, 3200, 1024) and not the monitor's. On the single monitor at the origin the
  two rectangles do agree.
\<close>

theorem make_fullscreen_second_monitor:
  "fst (make_fullscreen 1 desk_dual) = Inr ()
   \<and> new_calls desk_dual (snd (make_fullscreen 1 desk_dual)) =
       [C_SetWindowLong 1 (- 16) 0x92000000, C_MonitorFromWindow 1 2, C_GetMonitorInfo 2,
        C_SetWindowPos 1 0 0 0 3200 1024 0x60]
   \<and> map_option Monitor (map_of (displays desk_dual) 2) = Some (1920, 0, 3200, 1024)
   \<and> map_option bounds (lookup_window (snd (make_fullscreen 1 desk_dual)) 1)
       = Some (0, 0, 3200, 1024)
   \<and> map_option Monitor (map_of (displays desk_single) 1) = Some (0, 0, 1920, 1080)
   \<and> map_option bounds (lookup_window (snd (make_fullscreen 1 desk_single)) 1)
       = Some (0, 0, 1920, 1080)"
  by code_simp

text \<open>
  Claim C7 fails on the code, by the same defect. On that desktop two calls of
  \<^verbatim>\<open>make_fullscreen\<close> in succession both succeed and leave the monitors as they were;
  after the first the window's rectangle is (0, 0, 3200, 1024), which lies mostly on the
  first monitor, so the second call resolves the first monitor and leaves the rectangle
  (0, 0, 1920, 1080). The style is the same after both calls.
\<close>

theorem make_fullscreen_twice_differs:
  "fst (make_fullscreen 1 desk_dual) = Inr ()
   \<and> fst (make_fullscreen 1 (snd (make_fullscreen 1 desk_dual))) = Inr ()
   \<and> displays (snd (make_fullscreen 1 desk_dual)) = displays desk_dual
   \<and> displays (snd (make_fullscreen 1 (snd (make_fullscreen 1 desk_dual)))) = displays desk_dual
   \<and> map_option bounds (lookup_window (snd (make_fullscreen 1 desk_dual)) 1)
       = Some (0, 0, 3200, 1024)
   \<and> map_option bounds
        (lookup_window (snd (make_fullscreen 1 (snd (make_fullscreen 1 desk_dual)))) 1)
       = Some (0, 0, 1920, 1080)
   \<and> map_option style (lookup_window (snd (make_fullscreen 1 desk_dual)) 1) = Some 0x92000000
   \<and> map_option style
        (lookup_window (snd (make_fullscreen 1 (snd (make_fullscreen 1 desk_dual)))) 1)
       = Some 0x92000000"
  by code_simp

section \<open>The driver\<close>

text \<open>
  Claim C3 fails on the code. Run with \<^verbatim>\<open>--remove-decorations\<close> on a matching window
  that has a menu, \<^verbatim>\<open>main\<close> succeeds and prints the window, but the window keeps its
  menu and \<^verbatim>\<open>SetMenu\<close> is never called: \<^verbatim>\<open>main\<close> does not read the flag and does
  not call \<^verbatim>\<open>strip_decorations\<close>, which would have removed the menu.
\<close>

theorem main_never_strips:
  "args_remove_decorations args_strip
   \<and> fst (main re_compile args_strip desk_single) = Inr 0
   \<and> stdout (snd (main re_compile args_strip desk_single)) = [[1]]
   \<and> map_option menu (lookup_window desk_single 1) = Some (Some 7)
   \<and> map_option menu (lookup_window (snd (main re_compile args_strip desk_single)) 1) = Some (Some 7)
   \<and> \<not> list_ex is_menu_removal (calls (snd (main re_compile args_strip desk_single)))
   \<and> map_option menu (lookup_window (snd (strip_decorations 1 desk_single)) 1) = Some None"
  by code_simp

text \<open>
  Claim C8 as stated says that a failure on one window does not prevent the transition of
  the remaining ones. With three matching windows of which the second belongs to an
  elevated process, \<^verbatim>\<open>main\<close> prints the three matches and ends with the error of the
  second: a transition was started for the first two only, and the third window is as it
  was.
\<close>

theorem main_batch_counterexample:
  "fst (main re_compile args_all desk_batch) = Inl (pywintypes_error 5 ''SetWindowPos'')
   \<and> stdout (snd (main re_compile args_all desk_batch)) = [[1, 2, 3]]
   \<and> transition_targets (calls (snd (main re_compile args_all desk_batch))) = [1, 2]
   \<and> lookup_window (snd (main re_compile args_all desk_batch)) 3 = lookup_window desk_batch 3
   \<and> \<not> set [1, 2, 3] \<subseteq> set (transition_targets (calls (snd (main re_compile args_all desk_batch))))"
  by code_simp


text \<open>The windows a run of the loop starts a transition for.\<close>

lemma transition_targets_append [simp]:
  "transition_targets (xs @ ys) = transition_targets xs @ transition_targets ys"
  by (induction xs rule: transition_targets.induct) simp_all

lemma make_fullscreen_targets:
  "\<exists>cs. calls (snd (make_fullscreen h w)) = calls w @ cs \<and> transition_targets cs = [h]"
proof -
  from make_fullscreen_calls [of h w] obtain m tail where
    c: "calls (snd (make_fullscreen h w)) =
          calls w @ [C_SetWindowLong h GWL_STYLE BORDERLESS_STYLE,
                     C_MonitorFromWindow h MONITOR_DEFAULTTONEAREST,
                     C_GetMonitorInfo m] @ tail"
    and t: "tail = [] \<or> (\<exists>cx cy. tail =
          [C_SetWindowPos h HWND_TOP 0 0 cx cy (SWP_FRAMECHANGED OR SWP_SHOWWINDOW)])"
    by blast
  from t have "transition_targets tail = []" by auto
  with c show ?thesis by simp
qed

lemma for_each_window_targets:
  "for_each_window ms w = (Inr (), w') \<Longrightarrow>
   \<exists>cs. calls w' = calls w @ cs \<and> transition_targets cs = ms"
proof (induction ms arbitrary: w)
  case Nil
  then show ?case by simp
next
  case (Cons h ms)
  obtain r w1 where s: "make_fullscreen h w = (r, w1)"
    by (cases "make_fullscreen h w")
  with Cons.prems have r: "r = Inr ()" and rest: "for_each_window ms w1 = (Inr (), w')"
    by (auto split: sum.splits)
  from make_fullscreen_targets [of h w] s obtain cs1 where
    c1: "calls w1 = calls w @ cs1" "transition_targets cs1 = [h]" by auto
  from Cons.IH [OF rest] obtain cs2 where
    c2: "calls w' = calls w1 @ cs2" "transition_targets cs2 = ms" by blast
  from c1 c2 have "calls w' = calls w @ (cs1 @ cs2) \<and> transition_targets (cs1 @ cs2) = h # ms"
    by simp
  then show ?case by blast
qed

lemma for_each_window_append:
  "for_each_window pre w = (Inr (), w1) \<Longrightarrow>
   for_each_window (pre @ rest) w = for_each_window rest w1"
proof (induction pre arbitrary: w)
  case Nil
  then show ?case by simp
next
  case (Cons h pre)
  then show ?case
    by (cases "make_fullscreen h w") (auto split: sum.splits)
qed

text \<open>
  Claim C8, as amended. Nothing in \<^verbatim>\<open>main\<close> catches what \<^verbatim>\<open>make_fullscreen\<close> raises.
  Whatever \<^verbatim>\<open>re.compile\<close> is and whatever the patterns are:
  when the transitions of the matched windows \<open>pre\<close> succeed and that of the next matched
  window \<open>h\<close> fails, \<^verbatim>\<open>main\<close> ends with that error in the state the failed call left,
  and the windows a transition was started for are \<open>pre\<close> and \<open>h\<close>; the remaining
  matched windows \<open>post\<close> are not attempted.
\<close>

theorem main_stops_at_first_failure:
  assumes "compile_all compile (args_patterns a) (args_case_insensitive a) = Inr ps"
    and "get_windows ps (args_all_matches a) w = (Inr (pre @ h # post), w1)"
    and "for_each_window pre (print (pre @ h # post) w1) = (Inr (), w2)"
    and "make_fullscreen h w2 = (Inl e, w3)"
  shows "main compile a w = (Inl e, w3) \<and> transition_targets (new_calls w1 w3) = pre @ [h]"
proof -
  have "for_each_window (pre @ h # post) (print (pre @ h # post) w1) = for_each_window (h # post) w2"
    using assms(3) by (rule for_each_window_append)
  also have "\<dots> = (Inl e, w3)"
    using assms(4) by simp
  finally have m: "main compile a w = (Inl e, w3)"
    using assms(1,2) by (simp add: main_def)
  from for_each_window_targets [OF assms(3)] obtain cs where
    c: "calls w2 = calls (print (pre @ h # post) w1) @ cs" "transition_targets cs = pre" by blast
  from make_fullscreen_targets [of h w2] assms(4) obtain cs' where
    c': "calls w3 = calls w2 @ cs'" "transition_targets cs' = [h]" by auto
  have "calls (print (pre @ h # post) w1) = calls w1"
    by (simp add: print_def)
  with c c' have "transition_targets (new_calls w1 w3) = pre @ [h]"
    by (simp add: new_calls_def)
  with m show ?thesis by simp
qed

theorem main_stops_at_first_failure_witness:
  "compile_all re_compile (args_patterns args_all) (args_case_insensitive args_all) = Inr [pattern_Game False]
   \<and> fst (get_windows [pattern_Game False] (args_all_matches args_all) desk_batch) = Inr ([1] @ 2 # [3])
   \<and> fst (for_each_window [1]
        (print ([1] @ 2 # [3]) (snd (get_windows [pattern_Game False] (args_all_matches args_all) desk_batch)))) = Inr ()
   \<and> fst (main re_compile args_all desk_batch) = Inl (pywintypes_error 5 ''SetWindowPos'')
   \<and> transition_targets
        (new_calls (snd (get_windows [pattern_Game False] (args_all_matches args_all) desk_batch))
           (snd (main re_compile args_all desk_batch))) = [1] @ [2]"
proof -
  let ?g = "get_windows [pattern_Game False] (args_all_matches args_all) desk_batch"
  let ?f = "for_each_window [1] (print ([1] @ 2 # [3]) (snd ?g))"
  let ?m = "make_fullscreen 2 (snd ?f)"
  have h1: "compile_all re_compile (args_patterns args_all) (args_case_insensitive args_all) = Inr [pattern_Game False]"
    by (simp add: args_all_def re_compile_def pattern_Game_def is_meta_def)
  have g: "fst ?g = Inr ([1] @ 2 # [3])"
    by code_simp
  have f: "fst ?f = Inr ()"
    by code_simp
  have m: "fst ?m = Inl (pywintypes_error 5 ''SetWindowPos'')"
    by code_simp
  have h2: "?g = (Inr ([1] @ 2 # [3]), snd ?g)"
    using g by (simp add: prod_eq_iff)
  have h3: "?f = (Inr (), snd ?f)"
    using f by (simp add: prod_eq_iff)
  have h4: "?m = (Inl (pywintypes_error 5 ''SetWindowPos''), snd ?m)"
    using m by (simp add: prod_eq_iff)
  from main_stops_at_first_failure [OF h1 h2 h3 h4] h1 g f
  show ?thesis by simp
qed

section \<open>Patterns\<close>

text \<open>Whatever \<^verbatim>\<open>re.compile\<close> does, every raw pattern is handed to it with the one flag.\<close>

lemma compile_all_same_flag:
  "compile_all compile pats flag_I = Inr ps \<Longrightarrow>
   map Inr ps = map (\<lambda>pat. compile pat flag_I) pats"
proof (induction pats arbitrary: ps)
  case Nil
  then show ?case by simp
next
  case (Cons pat pats)
  then show ?case
    by (auto split: sum.splits)
qed

lemma compile_all_flag:
  "compile_all re_compile pats flag_I = Inr ps \<Longrightarrow>
   length ps = length pats \<and> (\<forall>p \<in> set ps. ignorecase p = flag_I)"
proof (induction pats arbitrary: ps)
  case Nil
  then show ?case by simp
next
  case (Cons pat pats)
  then show ?case
    by (auto simp: re_compile_def split: sum.splits)
qed

text \<open>
  Claim C9. Compiled with the case-insensitive flag, the pattern \<^verbatim>\<open>Game\<close> is found in
  the title \<^verbatim>\<open>my game window\<close>; compiled without it, it is not. The list comprehension
  of \<^verbatim>\<open>main\<close> compiles every raw pattern with the one flag: when it succeeds there is
  one compiled pattern for each raw one, and each carries that flag; and whatever
  \<^verbatim>\<open>re.compile\<close> is, each compiled pattern is what it returns on the raw pattern and
  that flag.
\<close>

theorem case_insensitive_Game:
  "(\<exists>p. re_compile ''Game'' True = Inr p \<and> search p ''my game window'')
   \<and> (\<exists>p. re_compile ''Game'' False = Inr p \<and> \<not> search p ''my game window'')
   \<and> (compile_all re_compile pats flag_I = Inr ps \<longrightarrow>
        length ps = length pats \<and> (\<forall>p \<in> set ps. ignorecase p = flag_I))
   \<and> (compile_all compile pats flag_I = Inr qs \<longrightarrow>
        map Inr qs = map (\<lambda>pat. compile pat flag_I) pats)"
proof -
  have c: "re_compile ''Game'' i = Inr (pattern_Game i)" for i
    by (simp add: re_compile_def pattern_Game_def is_meta_def)
  have "search (pattern_Game True) ''my game window''"
    by code_simp
  moreover have "\<not> search (pattern_Game False) ''my game window''"
    by code_simp
  ultimately show ?thesis
    using c compile_all_flag [of pats flag_I ps] compile_all_same_flag [of compile pats flag_I qs]
    by simp
qed

theorem case_insensitive_Game_witness:
  "compile_all re_compile [''Game'', ''a.b''] True =
     Inr [pattern_Game True,
          \<lparr>search = search_from True [Lit CHR ''a'', AnyChar, Lit CHR ''b''], ignorecase = True\<rparr>]
   \<and> (\<exists>p. re_compile ''Game'' True = Inr p \<and> search p ''my game window'')
   \<and> (\<exists>p. re_compile ''Game'' False = Inr p \<and> \<not> search p ''my game window'')
   \<and> map ignorecase
        [pattern_Game True,
         \<lparr>search = search_from True [Lit CHR ''a'', AnyChar, Lit CHR ''b''], ignorecase = True\<rparr>]
       = [True, True]
   \<and> map Inr
        [pattern_Game True,
         \<lparr>search = search_from True [Lit CHR ''a'', AnyChar, Lit CHR ''b''], ignorecase = True\<rparr>]
       = [re_compile ''Game'' True, re_compile ''a.b'' True]
   \<and> stdout (snd (main re_compile (args_all\<lparr>args_case_insensitive := True\<rparr>) desk_single)) = [[1]]
   \<and> stdout (snd (main re_compile args_all desk_single)) = [[]]"
proof -
  let ?ps = "[pattern_Game True,
      \<lparr>search = search_from True [Lit CHR ''a'', AnyChar, Lit CHR ''b''], ignorecase = True\<rparr>]"
  have h: "compile_all re_compile [''Game'', ''a.b''] True = Inr ?ps"
    by (simp add: re_compile_def pattern_Game_def is_meta_def)
  have e1: "stdout (snd (main re_compile (args_all\<lparr>args_case_insensitive := True\<rparr>) desk_single)) = [[1]]"
    by code_simp
  have e2: "stdout (snd (main re_compile args_all desk_single)) = [[]]"
    by code_simp
  from h e1 e2 case_insensitive_Game [of "[''Game'', ''a.b'']" True ?ps re_compile ?ps]
  show ?thesis by simp
qed

end
